theory Spec2Isabelle
  imports Complex_Main
begin

section \<open>The collaborators of the rule: JavaScript values, syntax tree, source file\<close>

text \<open>
  The rule \<^verbatim>\<open>prettiestRule.ts\<close> is a TSLint walker over a TypeScript syntax tree.
  The parser, the line map of the source file, the option array and the built-ins of
  JavaScript that the walker calls are not part of the repository. They are written
  out here as far as the walker observes them.
\<close>

subsection \<open>JavaScript built-ins\<close>

text \<open>
  The two exceptions the walker can run into: reading a property of \<^verbatim>\<open>undefined\<close>
  (TypeError) and \<^verbatim>\<open>String.prototype.repeat\<close> with a negative count (RangeError).
  \<open>UnsupportedOption\<close> is not an exception of the program: it marks the one
  configuration this development does not cover, a non-empty string in the position of
  the indent size, where JavaScript would coerce the string to a number.
\<close>

datatype error = TypeError | RangeError | UnsupportedOption

definition LF :: char where
  "LF = CHR 0x0A"

definition CR :: char where
  "CR = CHR 0x0D"

definition TAB :: char where
  "TAB = CHR 0x09"

text \<open>\<^verbatim>\<open>xs[i]\<close>: outside the array the read gives \<^verbatim>\<open>undefined\<close>, here \<open>None\<close>.\<close>

definition at_index :: "'a list \<Rightarrow> int \<Rightarrow> 'a option" where
  "at_index xs i = (if 0 \<le> i \<and> i < int (length xs) then Some (xs ! nat i) else None)"

text \<open>
  \<^verbatim>\<open>xs.indexOf(x)\<close>: the first index holding \<open>x\<close>, or \<open>-1\<close>. JavaScript
  compares nodes by identity, the function below by kind, offsets and children; the
  walker only looks up a node it has just taken from the same array as the first one of
  its kind, and for such a node both give the same index (\<open>indexOf_find\<close>).
\<close>

fun indexOf :: "'a list \<Rightarrow> 'a \<Rightarrow> int" where
  "indexOf [] x = -1"
| "indexOf (y # ys) x =
     (if y = x then 0 else (let i = indexOf ys x in if i < 0 then -1 else i + 1))"

text \<open>\<^verbatim>\<open>s.substring(a, b)\<close>; the two bounds are swapped when \<open>a > b\<close>.\<close>

definition substring :: "string \<Rightarrow> nat \<Rightarrow> nat \<Rightarrow> string" where
  "substring s a b = take (max a b - min a b) (drop (min a b) s)"

text \<open>\<^verbatim>\<open>s.repeat(n)\<close> raises a RangeError for a negative count.\<close>

definition repeat :: "string \<Rightarrow> int \<Rightarrow> error + string" where
  "repeat s n = (if n < 0 then Inl RangeError else Inr (concat (replicate (nat n) s)))"

text \<open>
  \<^verbatim>\<open>text.replace(/, (?!\n)/g, rep)\<close>: scanning from the left, every comma followed by
  a space, where the character after the space is not a line feed (the end of the text
  counts as "not a line feed"), is replaced together with its space by \<open>rep\<close>; the
  scan goes on behind the replaced pair. The replacement texts the walker passes
  contain no \<^verbatim>\<open>$\<close>, so \<open>rep\<close> is inserted as it is.
\<close>

fun replaceCommaSpace :: "string \<Rightarrow> string \<Rightarrow> string" where
  "replaceCommaSpace rep [] = []"
| "replaceCommaSpace rep [c] = [c]"
| "replaceCommaSpace rep (c # d # cs) =
     (if c = CHR '','' \<and> d = CHR '' '' \<and> (case cs of [] \<Rightarrow> True | e # _ \<Rightarrow> e \<noteq> LF)
      then rep @ replaceCommaSpace rep cs
      else c # replaceCommaSpace rep (d # cs))"

subsection \<open>Rule options\<close>

text \<open>
  \<^verbatim>\<open>getOptions()\<close> is the array of rule arguments of the configuration file. The
  values covered are strings, integers and booleans.
\<close>

datatype OptionValue = OptStr string | OptNum int | OptBool bool

fun truthy :: "OptionValue \<Rightarrow> bool" where
  "truthy (OptStr s) = (s \<noteq> [])"
| "truthy (OptNum n) = (n \<noteq> 0)"
| "truthy (OptBool b) = b"

definition OPTION_USE_TABS :: string where
  "OPTION_USE_TABS = ''tabs''"

text \<open>\<^verbatim>\<open>hasOption(name)\<close> of the walker base class: \<^verbatim>\<open>options.indexOf(name) !== -1\<close>.\<close>

definition hasOption :: "OptionValue list \<Rightarrow> string \<Rightarrow> bool" where
  "hasOption opts name = (indexOf opts (OptStr name) \<noteq> -1)"

subsection \<open>Syntax tree\<close>

text \<open>
  A node of the parsed tree as the walker reads it: its kind, the offset where its
  leading trivia starts (\<^verbatim>\<open>getFullStart\<close>), the offset of its first token
  (\<^verbatim>\<open>getStart\<close>), the offset behind its last character (\<^verbatim>\<open>getEnd\<close>) and its
  children, tokens included (\<^verbatim>\<open>getChildren\<close>). Kinds the walker never tests are
  \<open>OtherKind\<close> with their name.
\<close>

datatype SyntaxKind =
    SyntaxList | Parameter | PrivateKeyword | ProtectedKeyword | PublicKeyword
  | FinallyKeyword | ElseKeyword | Block | CatchClause | OtherKind string

datatype Node =
  Node (kind: SyntaxKind) (getFullStart: nat) (getStart: nat) (getEnd: nat)
       (getChildren: "Node list")

definition getWidth :: "Node \<Rightarrow> nat" where
  "getWidth n = getEnd n - getStart n"

text \<open>
  \<^verbatim>\<open>tryStatement.catchClause\<close>: the parser's reference to the catch clause of a try
  statement, which is the child of kind \<open>CatchClause\<close> when there is one.
\<close>

definition catchClause :: "Node \<Rightarrow> Node option" where
  "catchClause tryStatement = find (\<lambda>c. kind c = CatchClause) (getChildren tryStatement)"

subsection \<open>Source file and positions\<close>

text \<open>
  The line map of the source file (TypeScript's \<^verbatim>\<open>computeLineStarts\<close>): a line ends
  behind a line feed, a carriage return, or a carriage return followed by a line feed.
  \<open>pos\<close> is the offset of the next character, \<open>lineStart\<close> the offset where the
  current line began.
\<close>

fun lineStartsFrom :: "nat \<Rightarrow> nat \<Rightarrow> string \<Rightarrow> nat list" where
  "lineStartsFrom pos lineStart [] = [lineStart]"
| "lineStartsFrom pos lineStart (c # cs) =
     (if c = CR then
        (case cs of
           [] \<Rightarrow> lineStart # lineStartsFrom (pos + 1) (pos + 1) []
         | d # ds \<Rightarrow>
             if d = LF then lineStart # lineStartsFrom (pos + 2) (pos + 2) ds
             else lineStart # lineStartsFrom (pos + 1) (pos + 1) (d # ds))
      else if c = LF then lineStart # lineStartsFrom (pos + 1) (pos + 1) cs
      else lineStartsFrom (pos + 1) lineStart cs)"

definition computeLineStarts :: "string \<Rightarrow> nat list" where
  "computeLineStarts src = lineStartsFrom 0 0 src"

record LineAndCharacter =
  line :: nat
  character :: nat

text \<open>
  \<^verbatim>\<open>getLineAndCharacterOfPosition\<close>: the line is the last one that starts at or
  before the offset, the character is the distance from that line's start. Both are
  zero-based.
\<close>

definition getLineAndCharacterOfPosition :: "string \<Rightarrow> nat \<Rightarrow> LineAndCharacter" where
  "getLineAndCharacterOfPosition src pos =
     (let starts = filter (\<lambda>s. s \<le> pos) (computeLineStarts src)
      in \<lparr> line = length starts - 1, character = pos - last starts \<rparr>)"

section \<open>The walker\<close>

record Walker =
  sourceFile :: string
  indent :: string
  size_w :: int
  tabs :: bool

datatype Replacement = Replacement (rstart: nat) (rlength: nat) (rtext: string)

text \<open>
  A failure as \<^verbatim>\<open>addFailureAtNode(node, message, fix)\<close> records it: the start and
  the width of the node, the message and the fix.
\<close>

datatype RuleFailure =
  RuleFailure (fstart: nat) (fwidth: nat) (fmessage: string) (ffix: Replacement)

definition ControlStatementsOwnLineMessage :: string where
  "ControlStatementsOwnLineMessage =
     ''Control statements (else/catch/finally) should be on their own line.''"

definition MultilineConstructorMessage :: string where
  "MultilineConstructorMessage =
     ''Constructors with property declarations should be multi-line.''"

text \<open>
  The constructor of \<^verbatim>\<open>PrettiestWalker\<close>:
  \<^verbatim>\<open>size = (getOptions()[2] && getOptions()[2]) || 4\<close>, so every falsy value in
  position 2, the number 0 among them, gives 4. \<^verbatim>\<open>' '.repeat(size)\<close> is evaluated
  only without the tabs option, and raises for a negative size. The boolean
  \<^verbatim>\<open>true\<close> counts as 1 in JavaScript's arithmetic.
\<close>

definition PrettiestWalker_new :: "string \<Rightarrow> OptionValue list \<Rightarrow> error + Walker" where
  "PrettiestWalker_new src opts =
     (let tabs = hasOption opts OPTION_USE_TABS;
          v = (case at_index opts 2 of
                 None \<Rightarrow> OptNum 4
               | Some o2 \<Rightarrow> if truthy o2 then o2 else OptNum 4)
      in case v of
           OptStr s \<Rightarrow> Inl UnsupportedOption
         | _ \<Rightarrow>
            (let size = (case v of OptNum n \<Rightarrow> n | _ \<Rightarrow> 1)
             in if tabs
                then Inr \<lparr> sourceFile = src, indent = [TAB], size_w = size, tabs = tabs \<rparr>
                else (case repeat '' '' size of
                        Inl e \<Rightarrow> Inl e
                      | Inr i \<Rightarrow>
                          Inr \<lparr> sourceFile = src, indent = i, size_w = size, tabs = tabs \<rparr>)))"

definition getStartPosition :: "Walker \<Rightarrow> Node \<Rightarrow> LineAndCharacter" where
  "getStartPosition w node = getLineAndCharacterOfPosition (sourceFile w) (getStart node)"

definition getEndPosition :: "Walker \<Rightarrow> Node \<Rightarrow> LineAndCharacter" where
  "getEndPosition w node = getLineAndCharacterOfPosition (sourceFile w) (getEnd node)"

text \<open>\<^verbatim>\<open>node.getText()\<close>: the source text from the node's start to its end.\<close>

definition getText :: "Walker \<Rightarrow> Node \<Rightarrow> string" where
  "getText w node = substring (sourceFile w) (getStart node) (getEnd node)"

text \<open>
  \<^verbatim>\<open>areOnSameLine(node, nextNode)\<close>. The first argument is what an array read gave,
  so it can be \<^verbatim>\<open>undefined\<close>; \<^verbatim>\<open>getEndPosition\<close> then calls a method of
  \<^verbatim>\<open>undefined\<close>, which raises a TypeError.
\<close>

definition areOnSameLine :: "Walker \<Rightarrow> Node option \<Rightarrow> Node \<Rightarrow> error + bool" where
  "areOnSameLine w node nextNode =
     (case node of
        None \<Rightarrow> Inl TypeError
      | Some n \<Rightarrow> Inr (line (getEndPosition w n) = line (getStartPosition w nextNode)))"

text \<open>
  \<^verbatim>\<open>getIndentCount(node, offset)\<close>: \<^verbatim>\<open>Math.ceil(pos / size)\<close> on integers is the
  integer quotient rounded up, \<open>- (- pos div size)\<close>. (The floating-point quotient of
  JavaScript rounds no column of a source file across an integer; a size of 0, for
  which JavaScript would give an infinity, is excluded by the constructor.)
\<close>

definition getIndentCount :: "Walker \<Rightarrow> Node \<Rightarrow> int \<Rightarrow> int" where
  "getIndentCount w node offset =
     (let pos = int (character (getStartPosition w node)) - offset
      in if tabs w then pos else - ((- pos) div size_w w))"

text \<open>
  \<^verbatim>\<open>getPreviousNode(children, node)\<close>: the loop walks \<open>position\<close> down from the
  index before \<open>node\<close> to the first child of kind block or catch clause, or to
  \<open>-1\<close>; the result is \<^verbatim>\<open>children[position]\<close>, which is \<^verbatim>\<open>undefined\<close> when the
  loop ran out of children (or when \<open>node\<close> is not among them).
\<close>

function getPreviousNode_loop :: "Node list \<Rightarrow> int \<Rightarrow> error + int" where
  "getPreviousNode_loop children position =
     (if position \<ge> 0 then
        (case at_index children position of
           None \<Rightarrow> Inl TypeError
         | Some c \<Rightarrow>
             if kind c = Block \<or> kind c = CatchClause then Inr position
             else getPreviousNode_loop children (position - 1))
      else Inr position)"
  by pat_completeness auto
termination
  by (relation "measure (\<lambda>(children, position). nat (position + 1))") auto

definition getPreviousNode :: "Node list \<Rightarrow> Node \<Rightarrow> error + Node option" where
  "getPreviousNode children node =
     (case getPreviousNode_loop children (indexOf children node - 1) of
        Inl e \<Rightarrow> Inl e
      | Inr position \<Rightarrow> Inr (at_index children position))"

subsection \<open>try / catch / finally\<close>

definition checkTryStatement :: "Walker \<Rightarrow> Node \<Rightarrow> Node \<Rightarrow> error + RuleFailure list" where
  "checkTryStatement w tryStatement node =
     (case getPreviousNode (getChildren tryStatement) node of
        Inl e \<Rightarrow> Inl e
      | Inr previousNode \<Rightarrow>
         (case areOnSameLine w previousNode node of
            Inl e \<Rightarrow> Inl e
          | Inr requiresFix \<Rightarrow>
              if requiresFix then
                (let count = getIndentCount w node 2
                 in case repeat (indent w) count of
                      Inl e \<Rightarrow> Inl e
                    | Inr i \<Rightarrow>
                        Inr [RuleFailure (getStart node) (getWidth node)
                               ControlStatementsOwnLineMessage
                               (Replacement (getFullStart node) 1 (LF # i))])
              else Inr []))"

text \<open>
  \<^verbatim>\<open>visitTryStatement\<close> behind its call of the base class (which walks the children):
  the catch clause first, then the \<^verbatim>\<open>finally\<close> keyword. An exception of the first
  check ends the visit.
\<close>

definition visitTryStatement :: "Walker \<Rightarrow> Node \<Rightarrow> error + RuleFailure list" where
  "visitTryStatement w tryStatement =
     (case (case catchClause tryStatement of
              None \<Rightarrow> Inr []
            | Some c \<Rightarrow> checkTryStatement w tryStatement c) of
        Inl e \<Rightarrow> Inl e
      | Inr fs1 \<Rightarrow>
         (case (case find (\<lambda>c. kind c = FinallyKeyword) (getChildren tryStatement) of
                  None \<Rightarrow> Inr []
                | Some finallyBlock \<Rightarrow> checkTryStatement w tryStatement finallyBlock) of
            Inl e \<Rightarrow> Inl e
          | Inr fs2 \<Rightarrow> Inr (fs1 @ fs2)))"

subsection \<open>if / else\<close>

text \<open>
  \<^verbatim>\<open>visitIfStatement\<close> behind its call of the base class. The same-line test is
  evaluated before the test for a block among the children.
\<close>

definition visitIfStatement :: "Walker \<Rightarrow> Node \<Rightarrow> error + RuleFailure list" where
  "visitIfStatement w ifStatement =
     (case find (\<lambda>ch. kind ch = ElseKeyword) (getChildren ifStatement) of
        None \<Rightarrow> Inr []
      | Some elseKeyword \<Rightarrow>
         (let previousNode =
                at_index (getChildren ifStatement)
                  (indexOf (getChildren ifStatement) elseKeyword - 1)
          in case areOnSameLine w previousNode elseKeyword of
               Inl e \<Rightarrow> Inl e
             | Inr requiresFix \<Rightarrow>
                 if \<not> list_ex (\<lambda>ch. kind ch = Block) (getChildren ifStatement) then Inr []
                 else if requiresFix then
                   (let count = getIndentCount w elseKeyword 2
                    in case repeat (indent w) count of
                         Inl e \<Rightarrow> Inl e
                       | Inr i \<Rightarrow>
                           Inr [RuleFailure (getStart elseKeyword) (getWidth elseKeyword)
                                  ControlStatementsOwnLineMessage
                                  (Replacement (getFullStart elseKeyword) 1 (LF # i))])
                 else Inr []))"

subsection \<open>Constructors\<close>

text \<open>
  Whether a parameter declares a property: its first list child (the modifiers) holds a
  \<^verbatim>\<open>private\<close>, \<^verbatim>\<open>protected\<close> or \<^verbatim>\<open>public\<close> keyword.
\<close>

definition hasPropertyKeyword :: "Node \<Rightarrow> bool" where
  "hasPropertyKeyword p =
     (case find (\<lambda>c. kind c = SyntaxList) (getChildren p) of
        None \<Rightarrow> False
      | Some modifiers \<Rightarrow>
          (case find (\<lambda>c. kind c = PrivateKeyword \<or> kind c = ProtectedKeyword
                           \<or> kind c = PublicKeyword) (getChildren modifiers) of
             None \<Rightarrow> False
           | Some keyword \<Rightarrow> True))"

text \<open>
  The loop over the parameters, with its two variables \<open>hasProperties\<close> and
  \<open>previousLine\<close>; the result is \<open>requiresFix\<close>.
\<close>

fun scanParameters :: "Walker \<Rightarrow> Node list \<Rightarrow> bool \<Rightarrow> nat \<Rightarrow> bool" where
  "scanParameters w [] hasProperties previousLine = False"
| "scanParameters w (p # ps) hasProperties previousLine =
     (let hasProperties' = (hasProperties \<or> hasPropertyKeyword p);
          l = line (getStartPosition w p)
      in if hasProperties' \<and> l = previousLine then True
         else scanParameters w ps hasProperties' l)"

text \<open>
  \<^verbatim>\<open>visitConstructorDeclaration\<close> behind its call of the base class. The template
  string evaluates \<^verbatim>\<open>repeat(count + 1)\<close> before \<^verbatim>\<open>repeat(count)\<close>; the
  replacement text of the last statement repeats \<^verbatim>\<open>repeat(count + 1)\<close>, which has
  succeeded by then.
\<close>

definition visitConstructorDeclaration :: "Walker \<Rightarrow> Node \<Rightarrow> error + RuleFailure list" where
  "visitConstructorDeclaration w node =
     (case find (\<lambda>c. kind c = SyntaxList) (getChildren node) of
        None \<Rightarrow> Inr []
      | Some signature \<Rightarrow>
         (let parameters = filter (\<lambda>c. kind c = Parameter) (getChildren signature)
          in if scanParameters w parameters False (line (getStartPosition w node)) then
               (let count = getIndentCount w node 0
                in case repeat (indent w) (count + 1) of
                     Inl e \<Rightarrow> Inl e
                   | Inr i1 \<Rightarrow>
                      (case repeat (indent w) count of
                         Inl e \<Rightarrow> Inl e
                       | Inr i0 \<Rightarrow>
                           (let text0 = LF # i1 @ getText w signature @ LF # i0;
                                text1 = replaceCommaSpace (CHR '','' # LF # i1) text0
                            in Inr [RuleFailure (getStart signature) (getWidth signature)
                                      (MultilineConstructorMessage @ LF # text1)
                                      (Replacement (getStart signature) (getWidth signature)
                                         text1)])))
             else Inr []))"

subsection \<open>Applying a fix\<close>


section \<open>Notions used to state the properties\<close>

text \<open>\<open>k\<close> indent units of the walker.\<close>

definition indentUnits :: "Walker \<Rightarrow> int \<Rightarrow> string" where
  "indentUnits w k = concat (replicate (nat k) (indent w))"



section \<open>Example configurations, sources and trees\<close>

text \<open>
  The walkers of the two usual configurations: no rule argument (four spaces), and the
  rule argument \<^verbatim>\<open>"tabs"\<close>.
\<close>

definition spacesWalker :: "string \<Rightarrow> Walker" where
  "spacesWalker src = \<lparr> sourceFile = src, indent = ''    '', size_w = 4, tabs = False \<rparr>"

definition tabsWalker :: "string \<Rightarrow> Walker" where
  "tabsWalker src = \<lparr> sourceFile = src, indent = [TAB], size_w = 4, tabs = True \<rparr>"

text \<open>
  The trees below are written by hand, as the parser builds them for the source next
  to them; children that the walker never reads are left out.
\<close>

text \<open>A statement that starts in column 9, and a catch clause in column 3 behind a tab.\<close>

definition src_col9 :: string where
  "src_col9 = ''let a=1; if (x) {}''"

definition node_col9 :: Node where
  "node_col9 = Node (OtherKind ''IfStatement'') 8 9 18 []"

definition src_tab3 :: string where
  "src_tab3 = [TAB] @ ''} catch (e) {}''"

definition node_tab3 :: Node where
  "node_tab3 = Node CatchClause 2 3 15 []"

text \<open>The kinds at which the backward scan of \<^verbatim>\<open>getPreviousNode\<close> stops.\<close>

definition blockOrCatch :: "Node \<Rightarrow> bool" where
  "blockOrCatch c = (kind c = Block \<or> kind c = CatchClause)"

text \<open>
  \<^verbatim>\<open>try { foo(); } catch (e) { bar(); }\<close> on one line.
\<close>

definition src_try_line :: string where
  "src_try_line = ''try { foo(); } catch (e) { bar(); }''"




text \<open>
  A closing brace in column 0 with \<^verbatim>\<open>catch\<close> right behind it:
  \<^verbatim>\<open>try {\<close> / \<^verbatim>\<open>}catch (e) {\<close> / \<^verbatim>\<open>}\<close>.
\<close>

definition src_try_tight :: string where
  "src_try_tight = ''try {\<newline>}catch (e) {\<newline>}''"

definition try_tight_block :: Node where
  "try_tight_block = Node Block 3 4 7 []"

definition try_tight_catch :: Node where
  "try_tight_catch = Node CatchClause 7 7 20 []"

definition try_tight :: Node where
  "try_tight = Node (OtherKind ''TryStatement'') 0 0 20
     [Node (OtherKind ''TryKeyword'') 0 0 3 [], try_tight_block, try_tight_catch]"

text \<open>
  A tree no parser builds: a try statement without its block,
  \<^verbatim>\<open>try catch (e) {}\<close>.
\<close>

definition src_try_noblock :: string where
  "src_try_noblock = ''try catch (e) {}''"

definition try_noblock_catch :: Node where
  "try_noblock_catch = Node CatchClause 3 4 16 []"

definition try_noblock :: Node where
  "try_noblock = Node (OtherKind ''TryStatement'') 0 0 16
     [Node (OtherKind ''TryKeyword'') 0 0 3 [], try_noblock_catch]"

text \<open>
  \<^verbatim>\<open>if (x) { a(); } else { b(); }\<close> on one line.
\<close>

definition src_if_line :: string where
  "src_if_line = ''if (x) { a(); } else { b(); }''"




text \<open>
  A closing brace in column 0 with \<^verbatim>\<open>else\<close> right behind it:
  \<^verbatim>\<open>if (x) {\<close> / \<^verbatim>\<open>}else {\<close> / \<^verbatim>\<open>}\<close>.
\<close>

definition src_if_tight :: string where
  "src_if_tight = ''if (x) {\<newline>}else {\<newline>}''"

definition if_tight_block :: Node where
  "if_tight_block = Node Block 6 7 10 []"

definition if_tight_else :: Node where
  "if_tight_else = Node ElseKeyword 10 10 14 []"

definition if_tight :: Node where
  "if_tight = Node (OtherKind ''IfStatement'') 0 0 18
     [Node (OtherKind ''IfKeyword'') 0 0 2 [],
      Node (OtherKind ''OpenParenToken'') 2 3 4 [],
      Node (OtherKind ''Identifier'') 4 4 5 [],
      Node (OtherKind ''CloseParenToken'') 5 5 6 [],
      if_tight_block, if_tight_else,
      Node Block 14 15 18 []]"

text \<open>
  No braces at all, \<^verbatim>\<open>if (x) a(); else b();\<close>, and braces around the else branch
  only, \<^verbatim>\<open>if (x) a(); else { b(); }\<close>.
\<close>

definition src_if_bare :: string where
  "src_if_bare = ''if (x) a(); else b();''"

definition if_bare_then :: Node where
  "if_bare_then = Node (OtherKind ''ExpressionStatement'') 6 7 11 []"

definition if_bare_else :: Node where
  "if_bare_else = Node ElseKeyword 11 12 16 []"

definition if_bare :: Node where
  "if_bare = Node (OtherKind ''IfStatement'') 0 0 21
     [Node (OtherKind ''IfKeyword'') 0 0 2 [],
      Node (OtherKind ''OpenParenToken'') 2 3 4 [],
      Node (OtherKind ''Identifier'') 4 4 5 [],
      Node (OtherKind ''CloseParenToken'') 5 5 6 [],
      if_bare_then, if_bare_else,
      Node (OtherKind ''ExpressionStatement'') 16 17 21 []]"

definition src_if_else_block :: string where
  "src_if_else_block = ''if (x) a(); else { b(); }''"

definition if_else_block :: Node where
  "if_else_block = Node (OtherKind ''IfStatement'') 0 0 25
     [Node (OtherKind ''IfKeyword'') 0 0 2 [],
      Node (OtherKind ''OpenParenToken'') 2 3 4 [],
      Node (OtherKind ''Identifier'') 4 4 5 [],
      Node (OtherKind ''CloseParenToken'') 5 5 6 [],
      if_bare_then, if_bare_else,
      Node Block 16 17 25 []]"











text \<open>
  The one-line constructor without a space behind the comma,
  \<^verbatim>\<open>constructor(a: number,private b: string) {}\<close>.
\<close>

definition src_ctor_tight :: string where
  "src_ctor_tight =
     ''class A {\<newline>    constructor(a: number,private b: string) {}\<newline>}''"





text \<open>A constructor whose only parameter declares a property.\<close>

definition src_ctor_single :: string where
  "src_ctor_single = ''class A {\<newline>    constructor(private a: number) {}\<newline>}''"




text \<open>
  The source that the fix for the constructor without a space behind the comma leaves,
  and its tree.
\<close>

definition src_ctor_tight_fixed :: string where
  "src_ctor_tight_fixed =
     ''class A {\<newline>    constructor(\<newline>        a: number,private b: string\<newline>    ) {}\<newline>}''"





text \<open>
  A property parameter with type arguments,
  \<^verbatim>\<open>constructor(private m: Map<string, number>) {}\<close>.
\<close>

definition src_ctor_generic :: string where
  "src_ctor_generic =
     ''class A {\<newline>    constructor(private m: Map<string, number>) {}\<newline>}''"

definition ctor_generic_signature :: Node where
  "ctor_generic_signature = Node SyntaxList 26 26 56
     [Node Parameter 26 26 56
        [Node SyntaxList 26 26 33 [Node PrivateKeyword 26 26 33 []],
         Node (OtherKind ''Identifier'') 33 34 35 [],
         Node (OtherKind ''ColonToken'') 35 35 36 [],
         Node (OtherKind ''TypeReference'') 36 37 56 []]]"

definition ctor_generic :: Node where
  "ctor_generic = Node (OtherKind ''Constructor'') 9 14 60
     [Node (OtherKind ''ConstructorKeyword'') 9 14 25 [],
      Node (OtherKind ''OpenParenToken'') 25 25 26 [],
      ctor_generic_signature,
      Node (OtherKind ''CloseParenToken'') 56 56 57 [],
      Node Block 57 58 60 []]"







section \<open>Properties of the walker's construction and of the indent level\<close>

lemma spacesWalker_new: "PrettiestWalker_new src [] = Inr (spacesWalker src)"
  by (simp add: PrettiestWalker_new_def spacesWalker_def hasOption_def at_index_def repeat_def
      eval_nat_numeral)

lemma tabsWalker_new: "PrettiestWalker_new src [OptStr ''tabs''] = Inr (tabsWalker src)"
  by (simp add: PrettiestWalker_new_def tabsWalker_def hasOption_def at_index_def
      OPTION_USE_TABS_def)


text \<open>
  C4. For every node and offset the indent level is the start column minus the offset
  with tabs, and that difference divided by the indent size, rounded up, without tabs.
  With size 4, column 9 and offset 0 the level is 3; with tabs, column 3 and offset 2
  it is 1.
\<close>

theorem getIndentCount_level:
  assumes "PrettiestWalker_new src opts = Inr w"
  shows "getIndentCount w node offset =
           (if tabs w then int (character (getStartPosition w node)) - offset
            else \<lceil>real_of_int (int (character (getStartPosition w node)) - offset)
                   / real_of_int (size_w w)\<rceil>)
         \<and> (\<not> tabs w \<and> size_w w = 4 \<and> character (getStartPosition w node) = 9
              \<longrightarrow> getIndentCount w node 0 = 3)
         \<and> (tabs w \<and> character (getStartPosition w node) = 3
              \<longrightarrow> getIndentCount w node 2 = 1)"
proof -
  define pos where "pos = int (character (getStartPosition w node)) - offset"
  have "\<lceil>real_of_int pos / real_of_int (size_w w)\<rceil> = - ((- pos) div size_w w)"
    by (rule ceiling_divide_eq_div)
  then have "getIndentCount w node offset =
           (if tabs w then pos else \<lceil>real_of_int pos / real_of_int (size_w w)\<rceil>)"
    by (simp only: getIndentCount_def Let_def pos_def)
  then show ?thesis
    unfolding pos_def by (simp add: getIndentCount_def Let_def)
qed

lemma col9: "character (getStartPosition (spacesWalker src_col9) node_col9) = 9"
  by (simp add: getStartPosition_def getLineAndCharacterOfPosition_def computeLineStarts_def
        spacesWalker_def src_col9_def node_col9_def CR_def LF_def)

lemma tab3: "character (getStartPosition (tabsWalker src_tab3) node_tab3) = 3"
  by (simp add: getStartPosition_def getLineAndCharacterOfPosition_def computeLineStarts_def
        tabsWalker_def src_tab3_def node_tab3_def CR_def LF_def TAB_def)

text \<open>Column 9 with four spaces gives level 3, column 3 with tabs and offset 2 level 1.\<close>

theorem getIndentCount_level_witness:
  "PrettiestWalker_new src_col9 [] = Inr (spacesWalker src_col9)
   \<and> \<not> tabs (spacesWalker src_col9) \<and> size_w (spacesWalker src_col9) = 4
   \<and> character (getStartPosition (spacesWalker src_col9) node_col9) = 9
   \<and> getIndentCount (spacesWalker src_col9) node_col9 0 = 3
   \<and> PrettiestWalker_new src_tab3 [OptStr ''tabs''] = Inr (tabsWalker src_tab3)
   \<and> tabs (tabsWalker src_tab3)
   \<and> character (getStartPosition (tabsWalker src_tab3) node_tab3) = 3
   \<and> getIndentCount (tabsWalker src_tab3) node_tab3 2 = 1"
  using getIndentCount_level [OF spacesWalker_new, of src_col9 node_col9 0]
        getIndentCount_level [OF tabsWalker_new, of src_tab3 node_tab3 2]
        col9 tab3 spacesWalker_new [of src_col9] tabsWalker_new [of src_tab3]
  by (simp add: spacesWalker_def tabsWalker_def)



section \<open>Array reads and the backward scan\<close>

declare getPreviousNode_loop.simps [simp del]

lemma indexOf_bounds: "- 1 \<le> indexOf xs x \<and> indexOf xs x < int (length xs)"
  by (induction xs) (auto simp: Let_def)

lemma indexOf_find:
  "find P xs = Some x
   \<Longrightarrow> 0 \<le> indexOf xs x \<and> (\<forall>c \<in> set (take (nat (indexOf xs x)) xs). \<not> P c)"
proof (induction xs)
  case Nil
  then show ?case by simp
next
  case (Cons y ys)
  show ?case
  proof (cases "P y")
    case True
    with Cons.prems show ?thesis by simp
  next
    case False
    with Cons.prems have f: "find P ys = Some x" by simp
    then have "P x" by (auto simp: find_Some_iff)
    with False have ne: "y \<noteq> x" by auto
    from Cons.IH [OF f] ne False show ?thesis
      by (auto simp: Let_def nat_add_distrib)
  qed
qed

lemma loop_none:
  "p < int (length cs) \<Longrightarrow> \<forall>c \<in> set (take (nat (p + 1)) cs). \<not> blockOrCatch c
   \<Longrightarrow> \<exists>q<0. getPreviousNode_loop cs p = Inr q"
proof (induction cs p rule: getPreviousNode_loop.induct)
  case (1 children position)
  show ?case
  proof (cases "position \<ge> 0")
    case False
    then show ?thesis
      by (subst getPreviousNode_loop.simps) simp
  next
    case True
    with "1.prems" have at: "at_index children position = Some (children ! nat position)"
      by (simp add: at_index_def)
    from True "1.prems"(1)
    have "children ! nat position \<in> set (take (nat (position + 1)) children)"
      by (auto simp: in_set_conv_nth intro!: exI [of _ "nat position"])
    with "1.prems"(2) have nb: "\<not> blockOrCatch (children ! nat position)" by blast
    have sub: "set (take (nat (position - 1 + 1)) children)
               \<subseteq> set (take (nat (position + 1)) children)"
      by (rule set_take_subset_set_take) simp
    have "\<exists>q<0. getPreviousNode_loop children (position - 1) = Inr q"
      using "1.IH" [OF True at] nb "1.prems" sub
      by (auto simp: blockOrCatch_def)
    then show ?thesis
      using True at nb
      by (subst getPreviousNode_loop.simps) (simp add: blockOrCatch_def)
  qed
qed

lemma loop_some:
  "p < int (length cs) \<Longrightarrow> \<exists>c \<in> set (take (nat (p + 1)) cs). blockOrCatch c
   \<Longrightarrow> \<exists>q. getPreviousNode_loop cs p = Inr q \<and> 0 \<le> q \<and> q \<le> p \<and> blockOrCatch (cs ! nat q)"
proof (induction cs p rule: getPreviousNode_loop.induct)
  case (1 children position)
  from "1.prems"(2) have pos: "position \<ge> 0"
    by (cases "position \<ge> 0") auto
  with "1.prems" have at: "at_index children position = Some (children ! nat position)"
    by (simp add: at_index_def)
  show ?case
  proof (cases "blockOrCatch (children ! nat position)")
    case True
    with pos at show ?thesis
      by (subst getPreviousNode_loop.simps) (auto simp: blockOrCatch_def)
  next
    case False
    have "nat (position + 1) = Suc (nat position)" using pos by simp
    moreover have "nat position < length children" using pos "1.prems"(1) by simp
    ultimately have "take (nat (position + 1)) children
                     = take (nat position) children @ [children ! nat position]"
      by (simp add: take_Suc_conv_app_nth)
    with "1.prems"(2) False
    have ex: "\<exists>c \<in> set (take (nat (position - 1 + 1)) children). blockOrCatch c"
      by auto
    have "\<exists>q. getPreviousNode_loop children (position - 1) = Inr q \<and> 0 \<le> q
               \<and> q \<le> position - 1 \<and> blockOrCatch (children ! nat q)"
      using "1.IH" [OF pos at] False "1.prems"(1) ex
      by (auto simp: blockOrCatch_def)
    then show ?thesis
      using pos at False
      by (subst getPreviousNode_loop.simps) (auto simp: blockOrCatch_def)
  qed
qed

lemma getPreviousNode_none:
  assumes "\<forall>c \<in> set (take (nat (indexOf cs node)) cs). \<not> blockOrCatch c"
  shows "getPreviousNode cs node = Inr None"
proof -
  have "indexOf cs node - 1 < int (length cs)"
    using indexOf_bounds [of cs node] by simp
  moreover have "\<forall>c \<in> set (take (nat (indexOf cs node - 1 + 1)) cs). \<not> blockOrCatch c"
    using assms by simp
  ultimately obtain q where "q < 0" "getPreviousNode_loop cs (indexOf cs node - 1) = Inr q"
    using loop_none by blast
  then show ?thesis
    by (simp add: getPreviousNode_def at_index_def)
qed

lemma getPreviousNode_some:
  assumes "\<exists>c \<in> set (take (nat (indexOf cs node)) cs). blockOrCatch c"
  shows "\<exists>prev. getPreviousNode cs node = Inr (Some prev) \<and> blockOrCatch prev"
proof -
  have b: "indexOf cs node - 1 < int (length cs)"
    using indexOf_bounds [of cs node] by simp
  moreover have "\<exists>c \<in> set (take (nat (indexOf cs node - 1 + 1)) cs). blockOrCatch c"
    using assms by simp
  ultimately obtain q where q: "getPreviousNode_loop cs (indexOf cs node - 1) = Inr q"
    "0 \<le> q" "q \<le> indexOf cs node - 1" "blockOrCatch (cs ! nat q)"
    using loop_some by blast
  with b show ?thesis
    by (simp add: getPreviousNode_def at_index_def)
qed

section \<open>The same-line check of catch, finally and else\<close>

text \<open>
  What \<^verbatim>\<open>checkTryStatement\<close> does once the previous node is found: nothing when the
  lines differ, one failure when they agree and the indent level is not negative, a
  RangeError when it is negative.
\<close>

lemma checkTryStatement_found:
  assumes "getPreviousNode (getChildren t) node = Inr (Some prev)"
  shows "checkTryStatement w t node =
     (if line (getEndPosition w prev) = line (getStartPosition w node) then
        (if getIndentCount w node 2 < 0 then Inl RangeError
         else Inr [RuleFailure (getStart node) (getWidth node) ControlStatementsOwnLineMessage
                (Replacement (getFullStart node) 1
                   (LF # concat (replicate (nat (getIndentCount w node 2)) (indent w))))])
      else Inr [])"
  using assms
  by (simp add: checkTryStatement_def areOnSameLine_def repeat_def Let_def)

lemma visitIfStatement_found:
  assumes "find (\<lambda>ch. kind ch = ElseKeyword) (getChildren i) = Some e"
    and "at_index (getChildren i) (indexOf (getChildren i) e - 1) = Some prev"
  shows "visitIfStatement w i =
     (if \<not> list_ex (\<lambda>ch. kind ch = Block) (getChildren i) then Inr []
      else if line (getEndPosition w prev) = line (getStartPosition w e) then
        (if getIndentCount w e 2 < 0 then Inl RangeError
         else Inr [RuleFailure (getStart e) (getWidth e) ControlStatementsOwnLineMessage
                (Replacement (getFullStart e) 1
                   (LF # concat (replicate (nat (getIndentCount w e 2)) (indent w))))])
      else Inr [])"
  using assms
  by (simp add: visitIfStatement_def areOnSameLine_def repeat_def Let_def)

text \<open>An if statement without a block among its children never yields a failure.\<close>

lemma visitIfStatement_no_block:
  assumes "\<not> list_ex (\<lambda>ch. kind ch = Block) (getChildren i)"
  shows "visitIfStatement w i = Inr [] \<or> visitIfStatement w i = Inl TypeError"
  using assms
  by (auto simp: visitIfStatement_def areOnSameLine_def Let_def
      split: option.splits sum.splits)

text \<open>The line map on the example sources.\<close>

lemma lines_try_line: "computeLineStarts src_try_line = [0]"
  by (simp add: src_try_line_def computeLineStarts_def CR_def LF_def)

lemma lines_try_tight: "computeLineStarts src_try_tight = [0, 6, 19]"
  by (simp add: src_try_tight_def computeLineStarts_def CR_def LF_def)

lemma lines_try_noblock: "computeLineStarts src_try_noblock = [0]"
  by (simp add: src_try_noblock_def computeLineStarts_def CR_def LF_def)

lemma lines_if_line: "computeLineStarts src_if_line = [0]"
  by (simp add: src_if_line_def computeLineStarts_def CR_def LF_def)

lemma lines_if_tight: "computeLineStarts src_if_tight = [0, 9, 17]"
  by (simp add: src_if_tight_def computeLineStarts_def CR_def LF_def)

lemma lines_if_bare: "computeLineStarts src_if_bare = [0]"
  by (simp add: src_if_bare_def computeLineStarts_def CR_def LF_def)

lemma lines_if_else_block: "computeLineStarts src_if_else_block = [0]"
  by (simp add: src_if_else_block_def computeLineStarts_def CR_def LF_def)

lemmas position_defs =
  getStartPosition_def getEndPosition_def getLineAndCharacterOfPosition_def
  spacesWalker_def tabsWalker_def

text \<open>
  C1. For every catch clause, finally keyword or else keyword under test a violation
  is reported exactly when the preceding node ends on the line where the keyword
  starts, with a fix at the keyword's full start, of width 1, that inserts a line feed
  and as many indent units as the indent level for offset 2. With the tabs option,
  \<^verbatim>\<open>catch\<close> in column 1 right behind a closing brace in column 0 is on the same line
  as the block before it, the indent level is -1, and \<^verbatim>\<open>checkTryStatement\<close> ends in
  the RangeError of \<^verbatim>\<open>repeat\<close> instead of reporting the violation.
\<close>

theorem checkTryStatement_tight_catch_raises:
  "PrettiestWalker_new src_try_tight [OptStr ''tabs''] = Inr (tabsWalker src_try_tight)
   \<and> getPreviousNode (getChildren try_tight) try_tight_catch = Inr (Some try_tight_block)
   \<and> areOnSameLine (tabsWalker src_try_tight) (Some try_tight_block) try_tight_catch
       = Inr True
   \<and> getIndentCount (tabsWalker src_try_tight) try_tight_catch 2 = - 1
   \<and> checkTryStatement (tabsWalker src_try_tight) try_tight try_tight_catch
       = Inl RangeError
   \<and> visitTryStatement (tabsWalker src_try_tight) try_tight = Inl RangeError"
proof -
  have prev: "getPreviousNode (getChildren try_tight) try_tight_catch
              = Inr (Some try_tight_block)"
    by (simp add: getPreviousNode_def getPreviousNode_loop.simps at_index_def try_tight_def
        try_tight_catch_def try_tight_block_def)
  have same: "areOnSameLine (tabsWalker src_try_tight) (Some try_tight_block) try_tight_catch
              = Inr True"
    by (simp add: areOnSameLine_def position_defs lines_try_tight try_tight_catch_def
        try_tight_block_def)
  have count: "getIndentCount (tabsWalker src_try_tight) try_tight_catch 2 = - 1"
    by (simp add: getIndentCount_def position_defs lines_try_tight try_tight_catch_def)
  have chk: "checkTryStatement (tabsWalker src_try_tight) try_tight try_tight_catch
             = Inl RangeError"
    using same count
    by (simp add: checkTryStatement_found [OF prev] areOnSameLine_def)
  have "catchClause try_tight = Some try_tight_catch"
    by (simp add: catchClause_def try_tight_def try_tight_catch_def try_tight_block_def)
  then have "visitTryStatement (tabsWalker src_try_tight) try_tight = Inl RangeError"
    by (simp add: visitTryStatement_def chk)
  with prev same count chk tabsWalker_new show ?thesis by simp
qed

text \<open>
  C5. An if statement without a block among its direct children yields no violation
  for its \<^verbatim>\<open>else\<close>, wherever that stands; an if statement with a braced consequent
  and \<^verbatim>\<open>else\<close> on the line of the closing brace yields one. With the tabs option and
  \<^verbatim>\<open>else\<close> in column 1 right behind a closing brace in column 0, the consequent is
  braced and ends on the line of \<^verbatim>\<open>else\<close>, but \<^verbatim>\<open>visitIfStatement\<close> ends in the
  RangeError of \<^verbatim>\<open>repeat\<close> with count -1.
\<close>

theorem visitIfStatement_tight_else_raises:
  "PrettiestWalker_new src_if_tight [OptStr ''tabs''] = Inr (tabsWalker src_if_tight)
   \<and> find (\<lambda>ch. kind ch = ElseKeyword) (getChildren if_tight) = Some if_tight_else
   \<and> at_index (getChildren if_tight) (indexOf (getChildren if_tight) if_tight_else - 1)
       = Some if_tight_block
   \<and> kind if_tight_block = Block
   \<and> areOnSameLine (tabsWalker src_if_tight) (Some if_tight_block) if_tight_else = Inr True
   \<and> getIndentCount (tabsWalker src_if_tight) if_tight_else 2 = - 1
   \<and> visitIfStatement (tabsWalker src_if_tight) if_tight = Inl RangeError"
proof -
  have f: "find (\<lambda>ch. kind ch = ElseKeyword) (getChildren if_tight) = Some if_tight_else"
    by (simp add: if_tight_def if_tight_else_def if_tight_block_def)
  have prev: "at_index (getChildren if_tight)
                (indexOf (getChildren if_tight) if_tight_else - 1) = Some if_tight_block"
    by (simp add: at_index_def if_tight_def if_tight_else_def if_tight_block_def)
  have same: "areOnSameLine (tabsWalker src_if_tight) (Some if_tight_block) if_tight_else
              = Inr True"
    by (simp add: areOnSameLine_def position_defs lines_if_tight if_tight_else_def
        if_tight_block_def)
  have count: "getIndentCount (tabsWalker src_if_tight) if_tight_else 2 = - 1"
    by (simp add: getIndentCount_def position_defs lines_if_tight if_tight_else_def)
  have blk: "list_ex (\<lambda>ch. kind ch = Block) (getChildren if_tight)"
    by (simp add: if_tight_def if_tight_block_def)
  have "visitIfStatement (tabsWalker src_if_tight) if_tight = Inl RangeError"
    using same count blk
    by (simp add: visitIfStatement_found [OF f prev] areOnSameLine_def)
  with f prev same count tabsWalker_new show ?thesis
    by (simp add: if_tight_block_def)
qed

text \<open>
  C6. A catch clause or finally keyword without a preceding sibling of kind block or
  catch clause should be skipped without an error. As amended: for such a keyword
  (and for a node that is not among the children) the previous node is
  \<^verbatim>\<open>undefined\<close> and the check raises a TypeError, reporting nothing; with such a
  sibling present the check never raises a TypeError.
\<close>

theorem checkTryStatement_absent_sibling_raises:
  "checkTryStatement w t node = Inl TypeError
   \<longleftrightarrow> (\<forall>c \<in> set (take (nat (indexOf (getChildren t) node)) (getChildren t)).
          kind c \<noteq> Block \<and> kind c \<noteq> CatchClause)"
proof
  assume raises: "checkTryStatement w t node = Inl TypeError"
  show "\<forall>c \<in> set (take (nat (indexOf (getChildren t) node)) (getChildren t)).
          kind c \<noteq> Block \<and> kind c \<noteq> CatchClause"
  proof (rule ccontr)
    assume "\<not> ?thesis"
    then have "\<exists>c \<in> set (take (nat (indexOf (getChildren t) node)) (getChildren t)).
                 blockOrCatch c"
      by (auto simp: blockOrCatch_def)
    then obtain prev where "getPreviousNode (getChildren t) node = Inr (Some prev)"
      using getPreviousNode_some by blast
    from checkTryStatement_found [OF this, of w] raises show False
      by (simp split: if_splits)
  qed
next
  assume "\<forall>c \<in> set (take (nat (indexOf (getChildren t) node)) (getChildren t)).
            kind c \<noteq> Block \<and> kind c \<noteq> CatchClause"
  then have "getPreviousNode (getChildren t) node = Inr None"
    by (intro getPreviousNode_none) (simp add: blockOrCatch_def)
  then show "checkTryStatement w t node = Inl TypeError"
    by (simp add: checkTryStatement_def areOnSameLine_def)
qed

theorem checkTryStatement_absent_sibling_raises_witness:
  "take (nat (indexOf (getChildren try_noblock) try_noblock_catch)) (getChildren try_noblock)
     = [Node (OtherKind ''TryKeyword'') 0 0 3 []]
   \<and> checkTryStatement (spacesWalker src_try_noblock) try_noblock try_noblock_catch
       = Inl TypeError"
proof -
  have pre: "take (nat (indexOf (getChildren try_noblock) try_noblock_catch))
               (getChildren try_noblock) = [Node (OtherKind ''TryKeyword'') 0 0 3 []]"
    by (simp add: try_noblock_def try_noblock_catch_def)
  then have "\<forall>c \<in> set (take (nat (indexOf (getChildren try_noblock) try_noblock_catch))
                        (getChildren try_noblock)). kind c \<noteq> Block \<and> kind c \<noteq> CatchClause"
    by simp
  with checkTryStatement_absent_sibling_raises
    [of "spacesWalker src_try_noblock" try_noblock try_noblock_catch] pre
  show ?thesis by blast
qed

text \<open>
  The try statement without its block: the catch clause has no block or catch clause
  before it, and the visit ends in a TypeError instead of skipping the check.
\<close>

theorem visitTryStatement_without_block_raises:
  "map kind (getChildren try_noblock) = [OtherKind ''TryKeyword'', CatchClause]
   \<and> catchClause try_noblock = Some try_noblock_catch
   \<and> getPreviousNode (getChildren try_noblock) try_noblock_catch = Inr None
   \<and> visitTryStatement (spacesWalker src_try_noblock) try_noblock = Inl TypeError"
  by (simp add: visitTryStatement_def checkTryStatement_def getPreviousNode_def
      getPreviousNode_loop.simps areOnSameLine_def at_index_def catchClause_def
      try_noblock_def try_noblock_catch_def)

text \<open>
  C10. The exemption of unbraced bodies applies only when no direct child of the if
  statement is a block. With \<^verbatim>\<open>else\<close> on the line where the child before it ends (and
  an indent level that is not negative), a violation is reported exactly when some
  direct child is a block, also when the child before \<^verbatim>\<open>else\<close>, the consequent, is
  not one.
\<close>

theorem else_check_enabled_by_any_block:
  assumes "find (\<lambda>ch. kind ch = ElseKeyword) (getChildren i) = Some e"
    and "at_index (getChildren i) (indexOf (getChildren i) e - 1) = Some prev"
    and "line (getEndPosition w prev) = line (getStartPosition w e)"
    and "0 \<le> getIndentCount w e 2"
  shows "((\<exists>f. visitIfStatement w i = Inr [f])
            \<longleftrightarrow> list_ex (\<lambda>ch. kind ch = Block) (getChildren i))
         \<and> (\<not> list_ex (\<lambda>ch. kind ch = Block) (getChildren i) \<longrightarrow> visitIfStatement w i = Inr [])
         \<and> (kind prev \<noteq> Block \<and> list_ex (\<lambda>ch. kind ch = Block) (getChildren i)
              \<longrightarrow> visitIfStatement w i =
                   Inr [RuleFailure (getStart e) (getWidth e) ControlStatementsOwnLineMessage
                          (Replacement (getFullStart e) 1
                             (LF # indentUnits w (getIndentCount w e 2)))])"
  using assms(3,4)
  by (simp add: visitIfStatement_found [OF assms(1,2)] indentUnits_def)

theorem else_check_enabled_by_any_block_witness:
  "find (\<lambda>ch. kind ch = ElseKeyword) (getChildren if_else_block) = Some if_bare_else
   \<and> at_index (getChildren if_else_block)
        (indexOf (getChildren if_else_block) if_bare_else - 1) = Some if_bare_then
   \<and> line (getEndPosition (spacesWalker src_if_else_block) if_bare_then)
       = line (getStartPosition (spacesWalker src_if_else_block) if_bare_else)
   \<and> getIndentCount (spacesWalker src_if_else_block) if_bare_else 2 = 3
   \<and> kind if_bare_then = OtherKind ''ExpressionStatement''
   \<and> list_ex (\<lambda>ch. kind ch = Block) (getChildren if_else_block)
   \<and> visitIfStatement (spacesWalker src_if_else_block) if_else_block
       = Inr [RuleFailure 12 4 ControlStatementsOwnLineMessage
                (Replacement 11 1 (LF # ''            ''))]"
proof -
  have f: "find (\<lambda>ch. kind ch = ElseKeyword) (getChildren if_else_block) = Some if_bare_else"
    by (simp add: if_else_block_def if_bare_else_def if_bare_then_def)
  have prev: "at_index (getChildren if_else_block)
                (indexOf (getChildren if_else_block) if_bare_else - 1) = Some if_bare_then"
    by (simp add: at_index_def if_else_block_def if_bare_else_def if_bare_then_def)
  have same: "line (getEndPosition (spacesWalker src_if_else_block) if_bare_then)
              = line (getStartPosition (spacesWalker src_if_else_block) if_bare_else)"
    by (simp add: position_defs lines_if_else_block if_bare_else_def if_bare_then_def)
  have count: "getIndentCount (spacesWalker src_if_else_block) if_bare_else 2 = 3"
    by (simp add: getIndentCount_def position_defs lines_if_else_block if_bare_else_def)
  have k: "kind if_bare_then = OtherKind ''ExpressionStatement''"
    by (simp add: if_bare_then_def)
  have blk: "list_ex (\<lambda>ch. kind ch = Block) (getChildren if_else_block)"
    by (simp add: if_else_block_def if_bare_else_def if_bare_then_def)
  have nonneg: "0 \<le> getIndentCount (spacesWalker src_if_else_block) if_bare_else 2"
    by (simp add: count)
  have units: "indentUnits (spacesWalker src_if_else_block) 3 = ''            ''"
    by (simp add: indentUnits_def spacesWalker_def eval_nat_numeral)
  have "visitIfStatement (spacesWalker src_if_else_block) if_else_block
        = Inr [RuleFailure (getStart if_bare_else) (getWidth if_bare_else)
                 ControlStatementsOwnLineMessage
                 (Replacement (getFullStart if_bare_else) 1
                    (LF # indentUnits (spacesWalker src_if_else_block) 3))]"
    using else_check_enabled_by_any_block [OF f prev same nonneg] k blk
    by (simp add: count)
  then have "visitIfStatement (spacesWalker src_if_else_block) if_else_block
        = Inr [RuleFailure 12 4 ControlStatementsOwnLineMessage
                 (Replacement 11 1 (LF # ''            ''))]"
    by (simp add: units if_bare_else_def getWidth_def)
  with f prev same count k blk show ?thesis by simp
qed

section \<open>The constructor check\<close>










lemma lines_ctor_tight: "computeLineStarts src_ctor_tight = [0, 10, 58]"
  by (simp add: src_ctor_tight_def computeLineStarts_def CR_def LF_def)

lemma lines_ctor_tight_fixed: "computeLineStarts src_ctor_tight_fixed = [0, 10, 27, 63, 72]"
  by (simp add: src_ctor_tight_fixed_def computeLineStarts_def CR_def LF_def)

lemma lines_ctor_single: "computeLineStarts src_ctor_single = [0, 10, 48]"
  by (simp add: src_ctor_single_def computeLineStarts_def CR_def LF_def)






section \<open>The comma rewrite of the constructor fix\<close>

lemma replaceCommaSpace_before_comma:
  "replaceCommaSpace rep (xs @ CHR '','' # zs)
   = replaceCommaSpace rep xs @ replaceCommaSpace rep (CHR '','' # zs)"
proof (induction rep xs rule: replaceCommaSpace.induct)
  case (1 rep)
  then show ?case by simp
next
  case (2 rep c)
  then show ?case by simp
next
  case (3 rep c d cs)
  let ?m = "c = CHR '','' \<and> d = CHR '' '' \<and> (case cs of [] \<Rightarrow> True | e # _ \<Rightarrow> e \<noteq> LF)"
  have look: "(case cs @ CHR '','' # zs of [] \<Rightarrow> True | e # _ \<Rightarrow> e \<noteq> LF)
              = (case cs of [] \<Rightarrow> True | e # _ \<Rightarrow> e \<noteq> LF)"
    by (cases cs) (simp_all add: LF_def)
  have unfolded: "replaceCommaSpace rep ((c # d # cs) @ CHR '','' # zs)
        = (if ?m then rep @ replaceCommaSpace rep (cs @ CHR '','' # zs)
           else c # replaceCommaSpace rep ((d # cs) @ CHR '','' # zs))"
    by (simp only: append_Cons replaceCommaSpace.simps(3) look)
  show ?case
  proof (cases ?m)
    case True
    have "replaceCommaSpace rep ((c # d # cs) @ CHR '','' # zs)
          = rep @ replaceCommaSpace rep (cs @ CHR '','' # zs)"
      unfolding unfolded by (rule if_P [OF True])
    also have "\<dots> = rep @ replaceCommaSpace rep cs @ replaceCommaSpace rep (CHR '','' # zs)"
      by (simp only: "3.IH"(1) [OF True])
    also have "\<dots> = (rep @ replaceCommaSpace rep cs) @ replaceCommaSpace rep (CHR '','' # zs)"
      by simp
    also have "rep @ replaceCommaSpace rep cs = replaceCommaSpace rep (c # d # cs)"
      unfolding replaceCommaSpace.simps(3) by (rule if_P [OF True, symmetric])
    finally show ?thesis .
  next
    case False
    have "replaceCommaSpace rep ((c # d # cs) @ CHR '','' # zs)
          = c # replaceCommaSpace rep ((d # cs) @ CHR '','' # zs)"
      unfolding unfolded by (rule if_not_P [OF False])
    also have "\<dots> = c # replaceCommaSpace rep (d # cs) @ replaceCommaSpace rep (CHR '','' # zs)"
      by (simp only: "3.IH"(2) [OF False])
    also have "\<dots> = (c # replaceCommaSpace rep (d # cs)) @ replaceCommaSpace rep (CHR '','' # zs)"
      by simp
    also have "c # replaceCommaSpace rep (d # cs) = replaceCommaSpace rep (c # d # cs)"
      unfolding replaceCommaSpace.simps(3) by (rule if_not_P [OF False, symmetric])
    finally show ?thesis .
  qed
qed

text \<open>
  C9. In the fix of the constructor the line break goes in at every comma followed by a
  space, unless a line feed follows the space, wherever that pair stands in the text of
  the parameter list (in type arguments and default values as well as between
  parameters); a comma followed by a space and a line feed stays as it is, and a comma
  not followed by a space is never split.
\<close>

theorem replaceCommaSpace_every_comma_space:
  "(ys = [] \<or> hd ys \<noteq> LF \<longrightarrow>
      replaceCommaSpace rep (xs @ '', '' @ ys)
      = replaceCommaSpace rep xs @ rep @ replaceCommaSpace rep ys)
   \<and> replaceCommaSpace rep (xs @ '', '' @ LF # ys)
       = replaceCommaSpace rep xs @ '', '' @ LF # replaceCommaSpace rep ys
   \<and> (ys = [] \<or> hd ys \<noteq> CHR '' '' \<longrightarrow>
        replaceCommaSpace rep (xs @ CHR '','' # ys)
        = replaceCommaSpace rep xs @ CHR '','' # replaceCommaSpace rep ys)"
proof (intro conjI impI)
  assume "ys = [] \<or> hd ys \<noteq> LF"
  then have "replaceCommaSpace rep ('', '' @ ys) = rep @ replaceCommaSpace rep ys"
    by (cases ys) auto
  then show "replaceCommaSpace rep (xs @ '', '' @ ys)
      = replaceCommaSpace rep xs @ rep @ replaceCommaSpace rep ys"
    using replaceCommaSpace_before_comma [of rep xs "CHR '' '' # ys"] by simp
next
  have "replaceCommaSpace rep ('', '' @ LF # ys) = '', '' @ LF # replaceCommaSpace rep ys"
    by (cases ys) (auto simp: LF_def)
  then show "replaceCommaSpace rep (xs @ '', '' @ LF # ys)
       = replaceCommaSpace rep xs @ '', '' @ LF # replaceCommaSpace rep ys"
    using replaceCommaSpace_before_comma [of rep xs "CHR '' '' # LF # ys"] by simp
next
  assume "ys = [] \<or> hd ys \<noteq> CHR '' ''"
  then have "replaceCommaSpace rep (CHR '','' # ys) = CHR '','' # replaceCommaSpace rep ys"
    by (cases ys) auto
  then show "replaceCommaSpace rep (xs @ CHR '','' # ys)
        = replaceCommaSpace rep xs @ CHR '','' # replaceCommaSpace rep ys"
    using replaceCommaSpace_before_comma [of rep xs ys] by simp
qed

theorem replaceCommaSpace_every_comma_space_witness:
  "replaceCommaSpace ''X'' ''x: Map<string, number> = f(1, 2),y: T''
     = ''x: Map<stringXnumber> = f(1X2),y: T''
   \<and> replaceCommaSpace ''X'' ''a, \<newline>b'' = ''a, \<newline>b''
   \<and> getText (spacesWalker src_ctor_generic) ctor_generic_signature
       = ''private m: Map<string, number>''
   \<and> visitConstructorDeclaration (spacesWalker src_ctor_generic) ctor_generic
       = Inr [RuleFailure 26 30
                (MultilineConstructorMessage
                   @ ''\<newline>\<newline>        private m: Map<string,\<newline>        number>\<newline>    '')
                (Replacement 26 30
                   ''\<newline>        private m: Map<string,\<newline>        number>\<newline>    '')]"
proof -
  have a: "replaceCommaSpace ''X'' ''x: Map<string'' = ''x: Map<string''"
    by code_simp
  have b: "replaceCommaSpace ''X'' ''number> = f(1'' = ''number> = f(1''"
    by code_simp
  have c: "replaceCommaSpace ''X'' ''2)'' = ''2)''"
    by code_simp
  have d: "replaceCommaSpace ''X'' ''y: T'' = ''y: T''"
    by code_simp
  have e: "replaceCommaSpace ''X'' ''a'' = ''a''" "replaceCommaSpace ''X'' ''b'' = ''b''"
    by code_simp+
  have nl: "hd ''number> = f(1, 2),y: T'' \<noteq> LF" "hd ''2),y: T'' \<noteq> LF"
    "hd ''y: T'' \<noteq> CHR '' ''"
    by (simp_all add: LF_def)
  have "replaceCommaSpace ''X'' (''2)'' @ CHR '','' # ''y: T'') = ''2),y: T''"
    using replaceCommaSpace_every_comma_space [of "''y: T''" "''X''" "''2)''"] nl c d
    by simp
  then have "replaceCommaSpace ''X'' (''number> = f(1'' @ '', '' @ ''2),y: T'')
             = ''number> = f(1X2),y: T''"
    using replaceCommaSpace_every_comma_space [of "''2),y: T''" "''X''" "''number> = f(1''"]
      nl b
    by simp
  then have "replaceCommaSpace ''X'' (''x: Map<string'' @ '', '' @ ''number> = f(1, 2),y: T'')
             = ''x: Map<stringXnumber> = f(1X2),y: T''"
    using replaceCommaSpace_every_comma_space
      [of "''number> = f(1, 2),y: T''" "''X''" "''x: Map<string''"] nl a
    by simp
  then have first: "replaceCommaSpace ''X'' ''x: Map<string, number> = f(1, 2),y: T''
     = ''x: Map<stringXnumber> = f(1X2),y: T''"
    by simp
  have "replaceCommaSpace ''X'' (''a'' @ '', '' @ LF # ''b'') = ''a'' @ '', '' @ LF # ''b''"
    using replaceCommaSpace_every_comma_space [of "''b''" "''X''" "''a''"] e
    by simp
  then have second: "replaceCommaSpace ''X'' ''a, \<newline>b'' = ''a, \<newline>b''"
    by (simp add: LF_def)
  have third: "getText (spacesWalker src_ctor_generic) ctor_generic_signature
       = ''private m: Map<string, number>''"
    by code_simp
  have fourth: "visitConstructorDeclaration (spacesWalker src_ctor_generic) ctor_generic
       = Inr [RuleFailure 26 30
                (MultilineConstructorMessage
                   @ ''\<newline>\<newline>        private m: Map<string,\<newline>        number>\<newline>    '')
                (Replacement 26 30
                   ''\<newline>        private m: Map<string,\<newline>        number>\<newline>    '')]"
    by code_simp
  from first second third fourth show ?thesis by simp
qed

section \<open>Line breaks and the line map\<close>









section \<open>Running the walker on the fixed text\<close>





end
